theory Spec2Isabelle
  imports Main "HOL-Library.Sublist"
begin

section \<open>The print gateway of PrinterMatiasERP (main.go)\<close>

text \<open>
  The service of \<^verbatim>\<open>main.go\<close> enumerates the printers of a Windows host, downloads a
  PDF and hands it to an external print tool, and opens a cash drawer. This theory embeds
  the orchestration code (\<^verbatim>\<open>WindowsPrinterManager\<close>, \<^verbatim>\<open>DefaultPrinterService\<close>,
  \<^verbatim>\<open>downloadFile\<close>, \<^verbatim>\<open>parsePrinterDetails\<close>, \<^verbatim>\<open>PrintHandler\<close>) with every external
  interaction written out as an effect on an explicit world.
\<close>

subsection \<open>The byte-string functions of package strings used by the code\<close>

text \<open>
  Go strings are byte sequences, as \<^typ>\<open>string\<close> is. \<^verbatim>\<open>strings.Index\<close> returns the
  position of the first occurrence of a substring, \<open>-1\<close> (here \<open>None\<close>) when there is
  none; \<^verbatim>\<open>strings.Contains(s, substr)\<close> is \<^verbatim>\<open>Index(s, substr) >= 0\<close>.
\<close>

fun Index :: "string \<Rightarrow> string \<Rightarrow> nat option" where
  "Index [] substr = (if substr = [] then Some 0 else None)"
| "Index (c # s) substr =
     (if prefix substr (c # s) then Some 0 else map_option Suc (Index s substr))"

definition Contains :: "string \<Rightarrow> string \<Rightarrow> bool" where
  "Contains s substr = (Index s substr \<noteq> None)"

lemma Index_bound: "Index s substr = Some i \<Longrightarrow> i + length substr \<le> length s"
proof (induction s arbitrary: i)
  case Nil
  then show ?case by (simp split: if_splits)
next
  case (Cons c s)
  show ?case
  proof (cases "prefix substr (c # s)")
    case True
    with Cons.prems prefix_length_le [OF True] show ?thesis by simp
  next
    case False
    with Cons.prems obtain j where "Index s substr = Some j" "i = Suc j" by auto
    with Cons.IH show ?thesis by fastforce
  qed
qed

text \<open>
  \<^verbatim>\<open>strings.Count\<close> for a non-empty substring: the number of non-overlapping
  occurrences, found by repeated \<^verbatim>\<open>Index\<close>. (For the empty substring Go counts runes;
  the code never asks for that and the branch returns 0 here.)
\<close>

function Count :: "string \<Rightarrow> string \<Rightarrow> nat" where
  "Count s substr =
     (if substr = [] then 0
      else case Index s substr of
             None \<Rightarrow> 0
           | Some i \<Rightarrow> Suc (Count (drop (i + length substr) s) substr))"
  by pat_completeness auto
termination
proof (relation "measure (\<lambda>(s, substr). length s)")
  show "wf (measure (\<lambda>(s, substr). length s))" by simp
next
  fix s substr :: string and i :: nat
  assume ne: "substr \<noteq> []" and ix: "Index s substr = Some i"
  from ne have "0 < length substr" by simp
  with Index_bound [OF ix] have "0 < length s" "0 < i + length substr"
    by linarith+
  then show "((drop (i + length substr) s, substr), (s, substr)) \<in> measure (\<lambda>(s, substr). length s)"
    by simp
qed

declare Count.simps [simp del]

text \<open>
  \<^verbatim>\<open>genSplit(s, sep, 0, n)\<close> of package strings, for a non-empty separator: the loop cuts
  at most \<open>n - 1\<close> times at the first occurrence of the separator and the last piece is
  the unsplit remainder. \<open>n < 0\<close> means all pieces (\<open>Count + 1\<close>), \<open>n = 0\<close> none, and \<open>n\<close>
  is capped at \<open>len(s) + 1\<close>. Every separator in the code is one of the constants
  \<open>";"\<close>, \<open>"="\<close> and \<open>"\n"\<close>, so the separate rune-wise branch for an empty separator is left
  out.
\<close>

fun genSplit_loop :: "string \<Rightarrow> string \<Rightarrow> nat \<Rightarrow> string list" where
  "genSplit_loop s sep 0 = [s]"
| "genSplit_loop s sep (Suc k) =
     (case Index s sep of
        None \<Rightarrow> [s]
      | Some m \<Rightarrow> take m s # genSplit_loop (drop (m + length sep) s) sep k)"

definition genSplit :: "string \<Rightarrow> string \<Rightarrow> int \<Rightarrow> string list" where
  "genSplit s sep n =
     (if n = 0 then []
      else let n1 = (if n < 0 then int (Count s sep) + 1 else n);
               n2 = (if n1 > int (length s) + 1 then int (length s) + 1 else n1)
           in genSplit_loop s sep (nat (n2 - 1)))"

definition SplitN :: "string \<Rightarrow> string \<Rightarrow> int \<Rightarrow> string list" where
  "SplitN s sep n = genSplit s sep n"

definition Split :: "string \<Rightarrow> string \<Rightarrow> string list" where
  "Split s sep = genSplit s sep (- 1)"

subsection \<open>Errors, effects and the world\<close>

text \<open>
  Go errors are values built by \<^verbatim>\<open>fmt.Errorf\<close>, most of them wrapping a cause. One
  constructor stands for each format string of the code; \<open>Cause\<close> is an error that comes
  from outside the program (process launch, HTTP transport, file system, URL parser).
\<close>

datatype err =
    Cause string
  | PowerShellError err string    \<comment> \<open>error ejecutando PowerShell: %w, salida: %s\<close>
  | ListError err                 \<comment> \<open>error al listar impresoras: %w\<close>
  | VerifyError err               \<comment> \<open>error al verificar la impresora: %w\<close>
  | UnknownPrinter string         \<comment> \<open>la impresora '%s' no existe\<close>
  | InvalidURL err                \<comment> \<open>URL invalida: %w\<close>
  | UnsupportedScheme string      \<comment> \<open>esquema de URL no soportado: %s\<close>
  | NotOKStatus int string        \<comment> \<open>el servidor retorno estado no OK: %d %s\<close>
  | DownloadError err             \<comment> \<open>error al descargar el archivo: %w\<close>
  | PDFPrinterError err           \<comment> \<open>error al ejecutar PDFPrinter: %v, salida: %s\<close>
  | PrintError err                \<comment> \<open>error al imprimir el archivo: %w\<close>
  | DrawerCommandError err string \<comment> \<open>error al ejecutar comando de apertura de cajon: %v, salida: %s\<close>
  | DrawerError err               \<comment> \<open>error al abrir el cajon: %w\<close>
  | InvalidProperty string        \<comment> \<open>formato de propiedad invalido: %s\<close>

datatype level = INFO | WARN | ERROR

datatype arg = ArgS string | ArgE err

text \<open>
  Everything the code does to the outside is an effect, appended to the trace of the world
  in the order it happens. Three effects launch an external process: the PowerShell
  enumeration, the PDF print tool and the PowerShell drawer script. \<open>Log\<close> is a call of the
  \<^verbatim>\<open>Logger\<close> at a level with a format string and its arguments.
\<close>

datatype effect =
    Spawn_Get_Printer
  | Http_Get string
  | Create_Temp string
  | Copy_Body string
  | Stdout string "arg list"
  | Spawn_PDFPrinter string string
  | Remove_File string
  | Spawn_Drawer string
  | Log level string "arg list"

record world =
  files :: "string set"
  trace :: "effect list"

definition emit :: "effect \<Rightarrow> world \<Rightarrow> world" where
  "emit e w = w\<lparr>trace := trace w @ [e]\<rparr>"

fun is_spawn :: "effect \<Rightarrow> bool" where
  "is_spawn Spawn_Get_Printer = True"
| "is_spawn (Spawn_PDFPrinter f p) = True"
| "is_spawn (Spawn_Drawer p) = True"
| "is_spawn e = False"

fun is_fetch :: "effect \<Rightarrow> bool" where
  "is_fetch (Http_Get u) = True"
| "is_fetch e = False"

fun is_print :: "effect \<Rightarrow> bool" where
  "is_print (Spawn_PDFPrinter f p) = True"
| "is_print e = False"

fun is_drawer :: "effect \<Rightarrow> bool" where
  "is_drawer (Spawn_Drawer p) = True"
| "is_drawer e = False"

text \<open>
  The host is what the program cannot decide itself: the outcome of each external call,
  and the two library functions whose results the code only passes on
  (\<^verbatim>\<open>strings.TrimSpace\<close>, and \<^verbatim>\<open>url.ParseRequestURI\<close>, of which the code reads the
  \<^verbatim>\<open>Scheme\<close>). \<^verbatim>\<open>cmd.Run\<close> gives an error or none together with the captured output;
  \<^verbatim>\<open>client.Get\<close> gives a transport error or a response.
\<close>

record parsed_url =
  Scheme :: string

record response =
  StatusCode :: int
  Status :: string

record host =
  TrimSpace :: "string \<Rightarrow> string"
  ParseRequestURI :: "string \<Rightarrow> err + parsed_url"
  run_Get_Printer :: "err option \<times> string"
  http_Get :: "string \<Rightarrow> err + response"
  os_CreateTemp :: "err + string"
  io_Copy :: "string \<Rightarrow> err option"
  run_PDFPrinter :: "string \<Rightarrow> string \<Rightarrow> err option"
  os_Remove :: "string \<Rightarrow> err option"
  run_Drawer :: "string \<Rightarrow> err option \<times> string"

subsection \<open>The interfaces and their Windows implementations\<close>

record printer_manager =
  ListPrinters :: "world \<Rightarrow> (err + string list) \<times> world"
  PrinterExists :: "string \<Rightarrow> world \<Rightarrow> (err + bool) \<times> world"

record document_printer =
  PrintFile :: "string \<Rightarrow> string \<Rightarrow> world \<Rightarrow> err option \<times> world"

record drawer_opener =
  OpenDrawer :: "string \<Rightarrow> world \<Rightarrow> err option \<times> world"

record service =
  PrinterManager :: printer_manager
  DocumentPrinter :: document_printer
  DrawerOpener :: drawer_opener

text \<open>
  \<^verbatim>\<open>WindowsPrinterManager.ListPrinters\<close>: run PowerShell, fail with its error and output, or
  split the output at newlines and keep the trimmed lines that are not empty.
\<close>

definition Windows_ListPrinters :: "host \<Rightarrow> world \<Rightarrow> (err + string list) \<times> world" where
  "Windows_ListPrinters h w =
     (let w1 = emit Spawn_Get_Printer w in
      case run_Get_Printer h of
        (Some e, out) \<Rightarrow> (Inl (PowerShellError e out), w1)
      | (None, out) \<Rightarrow>
          (Inr (filter (\<lambda>trimmed. trimmed \<noteq> [])
                  (map (TrimSpace h) (Split out [CHR 0x0A]))), w1))"

text \<open>
  \<^verbatim>\<open>WindowsPrinterManager.PrinterExists\<close>: true as soon as one enumerated line contains the
  text \<^verbatim>\<open>"Name=" + name + ";"\<close>.
\<close>

definition Windows_PrinterExists :: "host \<Rightarrow> string \<Rightarrow> world \<Rightarrow> (err + bool) \<times> world" where
  "Windows_PrinterExists h name w =
     (case Windows_ListPrinters h w of
        (Inl e, w1) \<Rightarrow> (Inl (ListError e), w1)
      | (Inr printers, w1) \<Rightarrow>
          (Inr (list_ex (\<lambda>p. Contains p (''Name='' @ name @ '';'')) printers), w1))"

definition External_PrintFile ::
  "host \<Rightarrow> string \<Rightarrow> string \<Rightarrow> world \<Rightarrow> err option \<times> world" where
  "External_PrintFile h filePath printer w =
     (let w1 = emit (Stdout ''Imprimiendo archivo %s en impresora %s'' [ArgS filePath, ArgS printer]) w;
          w2 = emit (Spawn_PDFPrinter filePath printer) w1
      in case run_PDFPrinter h filePath printer of
           Some e \<Rightarrow> (Some (PDFPrinterError e), w2)
         | None \<Rightarrow> (None, w2))"

definition Windows_OpenDrawer :: "host \<Rightarrow> string \<Rightarrow> world \<Rightarrow> err option \<times> world" where
  "Windows_OpenDrawer h printerName w =
     (let w1 = emit (Spawn_Drawer printerName) w in
      case run_Drawer h printerName of
        (Some e, output) \<Rightarrow> (Some (DrawerCommandError e output), w1)
      | (None, output) \<Rightarrow> (None, w1))"

text \<open>The wiring of \<^verbatim>\<open>main\<close>.\<close>

definition main_service :: "host \<Rightarrow> service" where
  "main_service h =
     \<lparr>PrinterManager =
        \<lparr>ListPrinters = Windows_ListPrinters h, PrinterExists = Windows_PrinterExists h\<rparr>,
      DocumentPrinter = \<lparr>PrintFile = External_PrintFile h\<rparr>,
      DrawerOpener = \<lparr>OpenDrawer = Windows_OpenDrawer h\<rparr>\<rparr>"

subsection \<open>parsePrinterDetails and downloadFile\<close>

text \<open>
  \<^verbatim>\<open>parsePrinterDetails\<close>: split the line at \<open>";"\<close>; cut every property with
  \<^verbatim>\<open>SplitN(prop, "=", 2)\<close>; a property that does not give two parts ends the parse with an
  error, any other is stored under its key in the map (a later store replaces an earlier
  one).
\<close>

fun parse_properties ::
  "(string \<rightharpoonup> string) \<Rightarrow> string list \<Rightarrow> err + (string \<rightharpoonup> string)" where
  "parse_properties printerMap [] = Inr printerMap"
| "parse_properties printerMap (prop # properties) =
     (let kv = SplitN prop ''='' 2 in
      if length kv \<noteq> 2 then Inl (InvalidProperty prop)
      else parse_properties (printerMap(kv ! 0 \<mapsto> kv ! 1)) properties)"

definition parsePrinterDetails :: "string \<Rightarrow> err + (string \<rightharpoonup> string)" where
  "parsePrinterDetails details = parse_properties Map.empty (Split details '';'')"

text \<open>
  \<^verbatim>\<open>downloadFile\<close>: GET the URL; a transport error or a status other than 200 ends it
  before a file exists. \<^verbatim>\<open>os.CreateTemp\<close> then creates the file, and \<^verbatim>\<open>io.Copy\<close>
  streams the body into it; when the copy fails the function returns the error and
  leaves the file it created where it is.
\<close>

definition downloadFile :: "host \<Rightarrow> string \<Rightarrow> world \<Rightarrow> (err + string) \<times> world" where
  "downloadFile h fileURL w =
     (let w1 = emit (Http_Get fileURL) w in
      case http_Get h fileURL of
        Inl e \<Rightarrow> (Inl e, w1)
      | Inr resp \<Rightarrow>
          if StatusCode resp \<noteq> 200 then (Inl (NotOKStatus (StatusCode resp) (Status resp)), w1)
          else case os_CreateTemp h of
                 Inl e \<Rightarrow> (Inl e, w1)
               | Inr tempFile \<Rightarrow>
                   let w2 = (emit (Create_Temp tempFile) w1)\<lparr>files := insert tempFile (files w1)\<rparr>;
                       w3 = emit (Copy_Body tempFile) w2
                   in case io_Copy h tempFile of
                        Some e \<Rightarrow> (Inl e, w3)
                      | None \<Rightarrow> (Inr tempFile, w3))"

subsection \<open>DefaultPrinterService\<close>

text \<open>
  \<^verbatim>\<open>GetPrinters\<close>: list the printer lines, parse each, log and skip a line that does not
  parse, collect the others in order.
\<close>

fun GetPrinters_loop ::
  "string list \<Rightarrow> (string \<rightharpoonup> string) list \<Rightarrow> world \<Rightarrow> (string \<rightharpoonup> string) list \<times> world" where
  "GetPrinters_loop [] printers w = (printers, w)"
| "GetPrinters_loop (ps # printerStrings) printers w =
     (case parsePrinterDetails ps of
        Inl e \<Rightarrow>
          GetPrinters_loop printerStrings printers
            (emit (Log ERROR ''Error al parsear detalles de impresora: %v'' [ArgE e]) w)
      | Inr details \<Rightarrow> GetPrinters_loop printerStrings (printers @ [details]) w)"

definition GetPrinters ::
  "service \<Rightarrow> world \<Rightarrow> (err + (string \<rightharpoonup> string) list) \<times> world" where
  "GetPrinters d w =
     (case ListPrinters (PrinterManager d) w of
        (Inl e, w1) \<Rightarrow> (Inl (ListError e), w1)
      | (Inr printerStrings, w1) \<Rightarrow>
          (case GetPrinters_loop printerStrings [] w1 of
             (printers, w2) \<Rightarrow> (Inr printers, w2)))"

text \<open>
  The function deferred by \<^verbatim>\<open>PrintPDFFromURL\<close> once the download has succeeded: remove
  the file, and log when that fails. It returns nothing.
\<close>

definition remove_temp :: "host \<Rightarrow> string \<Rightarrow> world \<Rightarrow> world" where
  "remove_temp h filePath w =
     (let w1 = emit (Remove_File filePath) w in
      case os_Remove h filePath of
        Some e \<Rightarrow> emit (Log ERROR ''Error al eliminar archivo temporal: %v'' [ArgE e]) w1
      | None \<Rightarrow> w1\<lparr>files := files w1 - {filePath}\<rparr>)"

text \<open>
  \<^verbatim>\<open>PrintPDFFromURL\<close>: existence check, URL check, download, print. The deferred removal
  is registered after a successful download only, and runs after the return value of
  the print step has been fixed.
\<close>

definition PrintPDFFromURL ::
  "host \<Rightarrow> service \<Rightarrow> string \<Rightarrow> string \<Rightarrow> world \<Rightarrow> err option \<times> world" where
  "PrintPDFFromURL h d fileURL printerName w =
     (case PrinterExists (PrinterManager d) printerName w of
        (Inl e, w1) \<Rightarrow> (Some (VerifyError e), w1)
      | (Inr exists, w1) \<Rightarrow>
          if \<not> exists then (Some (UnknownPrinter printerName), w1)
          else case ParseRequestURI h fileURL of
                 Inl e \<Rightarrow> (Some (InvalidURL e), w1)
               | Inr parsedURL \<Rightarrow>
                   if Scheme parsedURL \<noteq> ''http'' \<and> Scheme parsedURL \<noteq> ''https''
                   then (Some (UnsupportedScheme (Scheme parsedURL)), w1)
                   else case downloadFile h fileURL w1 of
                          (Inl e, w2) \<Rightarrow> (Some (DownloadError e), w2)
                        | (Inr filePath, w2) \<Rightarrow>
                            let w3 = emit (Log INFO ''Archivo descargado: %s'' [ArgS filePath]) w2
                            in case PrintFile (DocumentPrinter d) filePath printerName w3 of
                                 (Some e, w4) \<Rightarrow> (Some (PrintError e), remove_temp h filePath w4)
                               | (None, w4) \<Rightarrow> (None, remove_temp h filePath w4))"

text \<open>\<^verbatim>\<open>DefaultPrinterService.OpenDrawer\<close>: existence check, then the drawer command.\<close>

definition Service_OpenDrawer :: "service \<Rightarrow> string \<Rightarrow> world \<Rightarrow> err option \<times> world" where
  "Service_OpenDrawer d printerName w =
     (case PrinterExists (PrinterManager d) printerName w of
        (Inl e, w1) \<Rightarrow> (Some (VerifyError e), w1)
      | (Inr exists, w1) \<Rightarrow>
          if \<not> exists then (Some (UnknownPrinter printerName), w1)
          else case OpenDrawer (DrawerOpener d) printerName w1 of
                 (Some e, w2) \<Rightarrow> (Some (DrawerError e), w2)
               | (None, w2) \<Rightarrow> (None, w2))"

subsection \<open>The handler of /print\<close>

text \<open>
  \<^verbatim>\<open>PrintHandler\<close> receives the method of the request and what decoding its JSON body
  into the \<^verbatim>\<open>PrintRequest\<close> struct gave (an error, or the two fields, empty when absent).
  The answer is a status code with a JSON object: a message, or an error with optional
  details. The accented letters of two messages are written without the accent.
\<close>

record PrintRequest =
  URL :: string
  Printer :: string

record request =
  Method :: string
  Body :: "err + PrintRequest"

datatype json = Message string | Error string "err option"

definition PrintHandler :: "host \<Rightarrow> service \<Rightarrow> request \<Rightarrow> world \<Rightarrow> (int \<times> json) \<times> world" where
  "PrintHandler h d r w =
     (let w1 = emit (Log INFO ''Received request: /print'' []) w in
      if Method r \<noteq> ''POST''
      then ((405, Error ''Metodo HTTP no permitido'' None),
            emit (Log WARN ''Metodo HTTP no permitido: %s'' [ArgS (Method r)]) w1)
      else case Body r of
             Inl e \<Rightarrow>
               ((400, Error ''Solicitud JSON invalida'' (Some e)),
                emit (Log WARN ''Error al decodificar JSON: %v'' [ArgE e]) w1)
           | Inr req \<Rightarrow>
               if URL req = [] \<or> Printer req = []
               then ((400, Error ''URL o impresora no especificados'' None),
                     emit (Log WARN ''URL o impresora no especificados'' []) w1)
               else case PrintPDFFromURL h d (URL req) (Printer req) w1 of
                      (Some e, w2) \<Rightarrow>
                        ((500, Error ''Error al imprimir el archivo'' (Some e)),
                         emit (Log ERROR ''Error al imprimir: %v'' [ArgE e]) w2)
                    | (None, w2) \<Rightarrow>
                        ((200, Message ''PDF enviado a la impresora exitosamente.''), w2))"

subsection \<open>Notions used to state the properties\<close>

text \<open>
  \<^verbatim>\<open>strings.Join\<close>: the elements with the separator between them. It is the inverse the
  splitting is measured against.
\<close>

fun Join :: "string list \<Rightarrow> string \<Rightarrow> string" where
  "Join [] sep = []"
| "Join [a] sep = a"
| "Join (a # b # elems) sep = a @ sep @ Join (b # elems) sep"

text \<open>
  A line is well-formed when each of its properties, the pieces between the semicolons,
  holds an equals sign. The key of a property is the text before its first equals sign,
  its value the text behind it.
\<close>

definition well_formed :: "string \<Rightarrow> bool" where
  "well_formed line = list_all (\<lambda>prop. CHR ''='' \<in> set prop) (Split line '';'')"

abbreviation (input) key_of :: "string \<Rightarrow> string" where
  "key_of tok \<equiv> takeWhile (\<lambda>x. x \<noteq> CHR ''='') tok"

abbreviation (input) value_of :: "string \<Rightarrow> string" where
  "value_of tok \<equiv> tl (dropWhile (\<lambda>x. x \<noteq> CHR ''='') tok)"

definition put_property :: "(string \<rightharpoonup> string) \<Rightarrow> string \<Rightarrow> (string \<rightharpoonup> string)" where
  "put_property m tok = m(key_of tok \<mapsto> value_of tok)"

text \<open>The effects a run has added to the trace of the world it started from.\<close>

definition effects_since :: "world \<Rightarrow> world \<Rightarrow> effect list" where
  "effects_since w w' = drop (length (trace w)) (trace w')"

text \<open>The log entry \<^verbatim>\<open>GetPrinters\<close> writes for a line that does not parse.\<close>

definition parse_log :: "string \<Rightarrow> effect" where
  "parse_log line =
     Log ERROR ''Error al parsear detalles de impresora: %v'' [ArgE (projl (parsePrinterDetails line))]"

text \<open>
  The errors of \<^verbatim>\<open>PrintPDFFromURL\<close> that come from validating the request, not from
  enumerating, downloading or printing.
\<close>

fun is_validation_error :: "err \<Rightarrow> bool" where
  "is_validation_error (UnknownPrinter n) = True"
| "is_validation_error (InvalidURL e) = True"
| "is_validation_error (UnsupportedScheme s) = True"
| "is_validation_error e = False"

subsection \<open>A concrete host\<close>

text \<open>
  The properties below are instantiated on this host. Its \<open>TrimSpace\<close> strips the six
  ASCII white-space bytes, as \<^verbatim>\<open>strings.TrimSpace\<close> does on ASCII text; its URL parser is
  the table of what \<^verbatim>\<open>url.ParseRequestURI\<close> returns for the URLs used (the scheme of the
  two absolute ones, an error for a relative reference such as \<open>doc.pdf\<close>). The
  enumeration prints three lines (the second has a printer name with a semicolon in it),
  and every other external call succeeds.
\<close>

definition ascii_space :: "char \<Rightarrow> bool" where
  "ascii_space c = (c \<in> {CHR 0x09, CHR 0x0A, CHR 0x0B, CHR 0x0C, CHR 0x0D, CHR '' ''})"

definition ascii_TrimSpace :: "string \<Rightarrow> string" where
  "ascii_TrimSpace s = rev (dropWhile ascii_space (rev (dropWhile ascii_space s)))"

definition example_ParseRequestURI :: "string \<Rightarrow> err + parsed_url" where
  "example_ParseRequestURI rawURL =
     (if rawURL = ''http://x/doc.pdf'' then Inr \<lparr>Scheme = ''http''\<rparr>
      else if rawURL = ''file:///etc/passwd'' then Inr \<lparr>Scheme = ''file''\<rparr>
      else Inl (Cause ''invalid URI for request''))"

definition example_output :: string where
  "example_output =
     ''Name=HP2;DriverName=HP;PortName=USB001;PrinterStatus=Normal;Location='' @ [CHR 0x0D, CHR 0x0A] @
     ''Name=Caja;1;DriverName=POS;PortName=COM1;PrinterStatus=Normal;Location='' @ [CHR 0x0D, CHR 0x0A] @
     ''Name=Ticket;DriverName=POS;PortName=COM2;PrinterStatus=Normal;Location=Caja=2'' @ [CHR 0x0D, CHR 0x0A]"

definition example_host :: host where
  "example_host =
     \<lparr>TrimSpace = ascii_TrimSpace,
      ParseRequestURI = example_ParseRequestURI,
      run_Get_Printer = (None, example_output),
      http_Get = (\<lambda>u. Inr \<lparr>StatusCode = 200, Status = ''200 OK''\<rparr>),
      os_CreateTemp = Inr ''/tmp/123.pdf'',
      io_Copy = (\<lambda>f. None),
      run_PDFPrinter = (\<lambda>f p. None),
      os_Remove = (\<lambda>f. None),
      run_Drawer = (\<lambda>p. (None, []))\<rparr>"

definition empty_world :: world where
  "empty_world = \<lparr>files = {}, trace = []\<rparr>"

text \<open>
  Three requests to \<^verbatim>\<open>/print\<close>, and the host on which the copy of the response body
  fails.
\<close>

definition bad_scheme_request :: request where
  "bad_scheme_request =
     \<lparr>Method = ''POST'', Body = Inr \<lparr>URL = ''file:///etc/passwd'', Printer = ''Ticket''\<rparr>\<rparr>"

definition unknown_printer_request :: request where
  "unknown_printer_request =
     \<lparr>Method = ''POST'', Body = Inr \<lparr>URL = ''http://x/doc.pdf'', Printer = ''Ghost''\<rparr>\<rparr>"

definition empty_field_request :: request where
  "empty_field_request =
     \<lparr>Method = ''POST'', Body = Inr \<lparr>URL = ''http://x/doc.pdf'', Printer = []\<rparr>\<rparr>"

definition copy_fails_host :: host where
  "copy_fails_host = example_host\<lparr>io_Copy := (\<lambda>f. Some (Cause ''unexpected EOF''))\<rparr>"

section \<open>Properties of the string functions\<close>

lemma Index_char:
  "Index s [c] = (if c \<in> set s then Some (length (takeWhile (\<lambda>x. x \<noteq> c) s)) else None)"
  by (induction s) auto

lemma take_first: "take (length (takeWhile P s)) s = takeWhile P s"
  by (induction s) auto

lemma drop_first: "drop (Suc (length (takeWhile P s))) s = tl (dropWhile P s)"
  by (induction s) auto

lemma Count_le: "Count s substr \<le> length s"
proof (induction s substr rule: Count.induct)
  case (1 s substr)
  show ?case
  proof (cases "substr = []")
    case True
    then show ?thesis by (simp add: Count.simps)
  next
    case False
    show ?thesis
    proof (cases "Index s substr")
      case None
      with False show ?thesis by (simp add: Count.simps)
    next
      case (Some i)
      from False have "0 < length substr" by simp
      with Index_bound [OF Some] have "length s - (i + length substr) < length s" by linarith
      moreover from "1.IH" [OF False Some]
      have "Count (drop (i + length substr) s) substr \<le> length s - (i + length substr)" by simp
      ultimately show ?thesis using False Some by (subst Count.simps) simp
    qed
  qed
qed

lemma SplitN_eq:
  "SplitN tok [c] 2 =
     (if c \<in> set tok
      then [takeWhile (\<lambda>x. x \<noteq> c) tok, tl (dropWhile (\<lambda>x. x \<noteq> c) tok)]
      else [tok])"
proof (cases tok)
  case Nil
  then show ?thesis by (simp add: SplitN_def genSplit_def)
next
  case (Cons a rest)
  then have "nat ((if (2::int) > int (length tok) + 1 then int (length tok) + 1 else 2) - 1) = Suc 0"
    by simp
  then have "SplitN tok [c] 2 = genSplit_loop tok [c] (Suc 0)"
    by (simp add: SplitN_def genSplit_def Let_def)
  then show ?thesis
    by (simp add: Index_char take_first drop_first del: Index.simps)
qed

lemma Join_Cons: "xs \<noteq> [] \<Longrightarrow> Join (a # xs) sep = a @ sep @ Join xs sep"
  by (cases xs) simp_all

lemma genSplit_loop_not_Nil: "genSplit_loop s sep k \<noteq> []"
  by (cases k) (simp_all split: option.split)

lemma first_cut: "c \<in> set s \<Longrightarrow> takeWhile (\<lambda>x. x \<noteq> c) s @ c # tl (dropWhile (\<lambda>x. x \<noteq> c) s) = s"
  by (induction s) auto

lemma genSplit_loop_Join: "Join (genSplit_loop s [c] k) [c] = s"
proof (induction k arbitrary: s)
  case 0
  show ?case by simp
next
  case (Suc k)
  show ?case
  proof (cases "c \<in> set s")
    case False
    then show ?thesis by (simp add: Index_char del: Index.simps)
  next
    case True
    then have "genSplit_loop s [c] (Suc k) =
        takeWhile (\<lambda>x. x \<noteq> c) s # genSplit_loop (tl (dropWhile (\<lambda>x. x \<noteq> c) s)) [c] k"
      by (simp add: Index_char take_first drop_first del: Index.simps)
    then show ?thesis
      using Suc.IH True by (simp add: Join_Cons genSplit_loop_not_Nil first_cut)
  qed
qed

lemma genSplit_loop_pieces:
  "Count s [c] = k \<Longrightarrow> t \<in> set (genSplit_loop s [c] k) \<Longrightarrow> c \<notin> set t"
proof (induction k arbitrary: s)
  case 0
  from "0.prems"(1) have "c \<notin> set s"
    by (subst (asm) Count.simps) (simp add: Index_char del: Index.simps split: if_splits)
  with "0.prems"(2) show ?case by simp
next
  case (Suc k)
  from Suc.prems(1) have mem: "c \<in> set s"
    and rest: "Count (tl (dropWhile (\<lambda>x. x \<noteq> c) s)) [c] = k"
    by (subst (asm) Count.simps; simp add: Index_char drop_first del: Index.simps split: if_splits)+
  from mem have "genSplit_loop s [c] (Suc k) =
      takeWhile (\<lambda>x. x \<noteq> c) s # genSplit_loop (tl (dropWhile (\<lambda>x. x \<noteq> c) s)) [c] k"
    by (simp add: Index_char take_first drop_first del: Index.simps)
  with Suc.prems(2) consider "t = takeWhile (\<lambda>x. x \<noteq> c) s"
    | "t \<in> set (genSplit_loop (tl (dropWhile (\<lambda>x. x \<noteq> c) s)) [c] k)"
    by auto
  then show ?case
  proof cases
    case 1
    then show ?thesis by (auto dest: set_takeWhileD)
  next
    case 2
    with Suc.IH [OF rest] show ?thesis by simp
  qed
qed

lemma Split_eq: "Split s [c] = genSplit_loop s [c] (Count s [c])"
proof -
  have "int (Count s [c]) + 1 \<le> int (length s) + 1" using Count_le [of s "[c]"] by simp
  then show ?thesis by (simp add: Split_def genSplit_def Let_def)
qed

lemma Split_Join: "Join (Split s [c]) [c] = s"
  by (simp add: Split_eq genSplit_loop_Join)

lemma Split_pieces: "t \<in> set (Split s [c]) \<Longrightarrow> c \<notin> set t"
  using genSplit_loop_pieces [OF refl, of t s c] by (simp add: Split_eq)

lemma Split_single: "c \<notin> set s \<Longrightarrow> Split s [c] = [s]"
proof -
  assume "c \<notin> set s"
  then have "Count s [c] = 0"
    by (subst Count.simps) (simp add: Index_char del: Index.simps)
  then show ?thesis by (simp add: Split_eq)
qed

text \<open>\<^verbatim>\<open>Contains\<close> is the substring relation.\<close>

lemma Contains_sublist: "Contains s substr = sublist substr s"
proof (induction s)
  case Nil
  show ?case by (simp add: Contains_def)
next
  case (Cons c s)
  then show ?case by (auto simp add: Contains_def sublist_Cons_right)
qed

section \<open>Properties of the parser\<close>

lemma put_property_apply:
  "put_property m tok k = (if k = key_of tok then Some (value_of tok) else m k)"
  by (simp add: put_property_def)

lemma parse_properties_ok:
  "list_all (\<lambda>tok. CHR ''='' \<in> set tok) toks \<Longrightarrow>
   parse_properties m toks = Inr (foldl put_property m toks)"
  by (induction toks arbitrary: m) (simp_all add: SplitN_eq put_property_def)

lemma parse_properties_bad:
  "\<not> list_all (\<lambda>tok. CHR ''='' \<in> set tok) toks \<Longrightarrow>
   \<exists>tok \<in> set toks. CHR ''='' \<notin> set tok \<and> parse_properties m toks = Inl (InvalidProperty tok)"
  by (induction toks arbitrary: m) (auto simp add: SplitN_eq)

lemma foldl_last_wins:
  "i < length toks \<Longrightarrow> key_of (toks ! i) = k \<Longrightarrow>
   (\<forall>j. i < j \<and> j < length toks \<longrightarrow> key_of (toks ! j) \<noteq> k) \<Longrightarrow>
   foldl put_property m toks k = Some (value_of (toks ! i))"
proof (induction toks arbitrary: i rule: rev_induct)
  case Nil
  then show ?case by simp
next
  case (snoc x xs)
  show ?case
  proof (cases "i = length xs")
    case True
    have "foldl put_property m (xs @ [x]) k = put_property (foldl put_property m xs) x k"
      by simp
    also have "\<dots> = Some (value_of x)"
      using snoc.prems(2) True by (subst put_property_apply) simp
    finally show ?thesis using True by simp
  next
    case False
    with snoc.prems(1) have lt: "i < length xs" by simp
    from snoc.prems(3) [rule_format, of "length xs"] lt
    have "key_of ((xs @ [x]) ! length xs) \<noteq> k" by simp
    then have ne: "key_of x \<noteq> k" by simp
    have "foldl put_property m xs k = Some (value_of (xs ! i))"
    proof (rule snoc.IH [OF lt])
      from snoc.prems(2) lt show "key_of (xs ! i) = k" by (simp add: nth_append)
      show "\<forall>j. i < j \<and> j < length xs \<longrightarrow> key_of (xs ! j) \<noteq> k"
      proof (intro allI impI)
        fix j assume j: "i < j \<and> j < length xs"
        with snoc.prems(3) have "key_of ((xs @ [x]) ! j) \<noteq> k" by simp
        with j show "key_of (xs ! j) \<noteq> k" by (simp add: nth_append)
      qed
    qed
    then have "put_property (foldl put_property m xs) x k = Some (value_of (xs ! i))"
      using ne by (subst put_property_apply) auto
    with lt show ?thesis by (simp add: nth_append)
  qed
qed

lemma foldl_origin:
  "foldl put_property m toks k = Some v \<Longrightarrow>
   m k = Some v \<or> (\<exists>tok \<in> set toks. key_of tok = k \<and> value_of tok = v)"
proof (induction toks arbitrary: v rule: rev_induct)
  case Nil
  then show ?case by simp
next
  case (snoc x xs)
  from snoc.prems have "put_property (foldl put_property m xs) x k = Some v" by simp
  then have "(k = key_of x \<and> v = value_of x) \<or> foldl put_property m xs k = Some v"
    by (subst (asm) put_property_apply) (auto split: if_splits)
  with snoc.IH show ?case by auto
qed

lemma key_prefix:
  "CHR ''='' \<notin> set k \<Longrightarrow> key_of (k @ ''='' @ v) = k \<and> value_of (k @ ''='' @ v) = v"
  by (induction k) auto

lemma key_of_prefix_iff:
  "CHR ''='' \<notin> set k \<Longrightarrow> (CHR ''='' \<in> set tok \<and> key_of tok = k) = prefix (k @ ''='') tok"
proof
  assume k: "CHR ''='' \<notin> set k" and "CHR ''='' \<in> set tok \<and> key_of tok = k"
  then have "tok = k @ CHR ''='' # value_of tok" using first_cut [of "CHR ''=''" tok] by simp
  then show "prefix (k @ ''='') tok" by (metis append.assoc append_Cons append_Nil prefixI)
next
  assume k: "CHR ''='' \<notin> set k" and "prefix (k @ ''='') tok"
  then obtain r where "tok = k @ ''='' @ r" by (auto elim: prefixE)
  with key_prefix [OF k, of r] show "CHR ''='' \<in> set tok \<and> key_of tok = k" by simp
qed

lemma parsePrinterDetails_ok:
  "well_formed details \<Longrightarrow>
   parsePrinterDetails details = Inr (foldl put_property Map.empty (Split details '';''))"
  by (simp add: well_formed_def parsePrinterDetails_def parse_properties_ok)

lemma parsePrinterDetails_bad:
  "\<not> well_formed details \<Longrightarrow>
   \<exists>tok \<in> set (Split details '';'').
     CHR ''='' \<notin> set tok \<and> parsePrinterDetails details = Inl (InvalidProperty tok)"
  unfolding well_formed_def parsePrinterDetails_def by (rule parse_properties_bad)

lemma property_shape:
  "CHR ''='' \<in> set tok \<Longrightarrow> tok = key_of tok @ ''='' @ value_of tok"
  using first_cut [of "CHR ''=''" tok] by simp

section \<open>The claims about the parser\<close>

text \<open>
  Claim C8. Parsing a line splits it at every semicolon into properties: joining the
  properties with semicolons gives the line back and no property holds a semicolon. Each
  property is cut at its first equals sign only: a property \<open>key=val\<close> whose key has no
  equals sign gives the two parts \<open>key\<close> and \<open>val\<close>, whatever equals signs \<open>val\<close> holds,
  and a property without an equals sign gives one part. The line is rejected (with the
  invalid-property error) exactly when one of its properties has no equals sign, and it
  is parsed into a record exactly when all of them have one. The record holds what the
  cut gives: every entry \<open>k \<mapsto> v\<close> of it comes from a property \<open>k=v\<close> of the line with no
  equals sign in \<open>k\<close>; the property \<open>k=v\<close> at a position behind which no property has the
  key \<open>k\<close> is stored as \<open>k \<mapsto> v\<close>; and a line that is the single property \<open>key=val\<close>
  gives the record with the one entry \<open>key \<mapsto> val\<close>, all equals signs of \<open>val\<close> kept.
\<close>

theorem parsePrinterDetails_splits_at_first_equals:
  "Join (Split details '';'') '';'' = details
   \<and> (\<forall>tok \<in> set (Split details '';''). CHR '';'' \<notin> set tok)
   \<and> (CHR ''='' \<notin> set key \<longrightarrow> SplitN (key @ ''='' @ val) ''='' 2 = [key, val])
   \<and> (CHR ''='' \<notin> set tok \<longrightarrow> SplitN tok ''='' 2 = [tok])
   \<and> ((\<exists>tok \<in> set (Split details '';''). CHR ''='' \<notin> set tok)
        = (\<exists>bad. parsePrinterDetails details = Inl (InvalidProperty bad)))
   \<and> ((\<forall>tok \<in> set (Split details '';''). CHR ''='' \<in> set tok)
        = (\<exists>m. parsePrinterDetails details = Inr m))
   \<and> (\<forall>m k v. parsePrinterDetails details = Inr m \<and> m k = Some v \<longrightarrow>
          CHR ''='' \<notin> set k \<and> k @ ''='' @ v \<in> set (Split details '';''))
   \<and> (\<forall>m i k v. parsePrinterDetails details = Inr m
          \<and> i < length (Split details '';'')
          \<and> Split details '';'' ! i = k @ ''='' @ v \<and> CHR ''='' \<notin> set k
          \<and> (\<forall>j. i < j \<and> j < length (Split details '';'') \<longrightarrow>
                 \<not> prefix (k @ ''='') (Split details '';'' ! j)) \<longrightarrow>
          m k = Some v)
   \<and> (CHR ''='' \<notin> set key \<and> CHR '';'' \<notin> set key \<and> CHR '';'' \<notin> set val \<longrightarrow>
          parsePrinterDetails (key @ ''='' @ val) = Inr [key \<mapsto> val])"
proof (intro conjI)
  show "Join (Split details '';'') '';'' = details" by (rule Split_Join)
  show "\<forall>tok \<in> set (Split details '';''). CHR '';'' \<notin> set tok"
    using Split_pieces by blast
  show "CHR ''='' \<notin> set key \<longrightarrow> SplitN (key @ ''='' @ val) ''='' 2 = [key, val]"
    using key_prefix [of key val] by (simp add: SplitN_eq)
  show "CHR ''='' \<notin> set tok \<longrightarrow> SplitN tok ''='' 2 = [tok]"
    by (simp add: SplitN_eq)
  show "(\<exists>tok \<in> set (Split details '';''). CHR ''='' \<notin> set tok)
        = (\<exists>bad. parsePrinterDetails details = Inl (InvalidProperty bad))"
  proof (cases "well_formed details")
    case True
    then show ?thesis
      by (simp add: parsePrinterDetails_ok) (simp add: well_formed_def list_all_iff)
  next
    case False
    from parsePrinterDetails_bad [OF False] show ?thesis by blast
  qed
  show "(\<forall>tok \<in> set (Split details '';''). CHR ''='' \<in> set tok)
        = (\<exists>m. parsePrinterDetails details = Inr m)"
  proof (cases "well_formed details")
    case True
    then show ?thesis
      by (simp add: parsePrinterDetails_ok) (simp add: well_formed_def list_all_iff)
  next
    case False
    from parsePrinterDetails_bad [OF False] show ?thesis by auto
  qed
  show "\<forall>m k v. parsePrinterDetails details = Inr m \<and> m k = Some v \<longrightarrow>
          CHR ''='' \<notin> set k \<and> k @ ''='' @ v \<in> set (Split details '';'')"
  proof (intro allI impI)
    fix m k v
    assume a: "parsePrinterDetails details = Inr m \<and> m k = Some v"
    have wf: "well_formed details"
    proof (rule ccontr)
      assume "\<not> well_formed details"
      from parsePrinterDetails_bad [OF this] a show False by auto
    qed
    with a have "foldl put_property Map.empty (Split details '';'') k = Some v"
      by (simp add: parsePrinterDetails_ok)
    from foldl_origin [OF this] obtain tok
      where tok: "tok \<in> set (Split details '';'')" "key_of tok = k" "value_of tok = v"
      by auto
    from wf tok(1) have "CHR ''='' \<in> set tok" by (simp add: well_formed_def list_all_iff)
    from property_shape [OF this] tok have "tok = k @ ''='' @ v" by simp
    moreover from tok(2) have "CHR ''='' \<notin> set k" by (auto dest: set_takeWhileD)
    ultimately show "CHR ''='' \<notin> set k \<and> k @ ''='' @ v \<in> set (Split details '';'')"
      using tok(1) by simp
  qed
  show "\<forall>m i k v. parsePrinterDetails details = Inr m
          \<and> i < length (Split details '';'')
          \<and> Split details '';'' ! i = k @ ''='' @ v \<and> CHR ''='' \<notin> set k
          \<and> (\<forall>j. i < j \<and> j < length (Split details '';'') \<longrightarrow>
                 \<not> prefix (k @ ''='') (Split details '';'' ! j)) \<longrightarrow>
          m k = Some v"
  proof (intro allI impI)
    fix m i k v
    let ?toks = "Split details '';''"
    assume a: "parsePrinterDetails details = Inr m
          \<and> i < length ?toks
          \<and> ?toks ! i = k @ ''='' @ v \<and> CHR ''='' \<notin> set k
          \<and> (\<forall>j. i < j \<and> j < length ?toks \<longrightarrow> \<not> prefix (k @ ''='') (?toks ! j))"
    then have p: "parsePrinterDetails details = Inr m" and i: "i < length ?toks"
      and ti: "?toks ! i = k @ ''='' @ v" and k: "CHR ''='' \<notin> set k"
      and lat: "\<forall>j. i < j \<and> j < length ?toks \<longrightarrow> \<not> prefix (k @ ''='') (?toks ! j)"
      by blast+
    have wf: "well_formed details"
    proof (rule ccontr)
      assume "\<not> well_formed details"
      from parsePrinterDetails_bad [OF this] p show False by auto
    qed
    from ti k have kv: "key_of (?toks ! i) = k" "value_of (?toks ! i) = v"
      using key_prefix [of k v] by simp_all
    have later: "\<forall>j. i < j \<and> j < length ?toks \<longrightarrow> key_of (?toks ! j) \<noteq> k"
    proof (intro allI impI)
      fix j assume j: "i < j \<and> j < length ?toks"
      then have "?toks ! j \<in> set ?toks" by simp
      with wf have "CHR ''='' \<in> set (?toks ! j)" by (simp add: well_formed_def list_all_iff)
      moreover from lat j have "\<not> prefix (k @ ''='') (?toks ! j)" by blast
      ultimately show "key_of (?toks ! j) \<noteq> k"
        using key_of_prefix_iff [OF k, of "?toks ! j"] by blast
    qed
    from foldl_last_wins [OF i kv(1) later, of Map.empty] kv(2)
    have "foldl put_property Map.empty ?toks k = Some v" by simp
    with wf p show "m k = Some v" by (simp add: parsePrinterDetails_ok)
  qed
  show "CHR ''='' \<notin> set key \<and> CHR '';'' \<notin> set key \<and> CHR '';'' \<notin> set val \<longrightarrow>
          parsePrinterDetails (key @ ''='' @ val) = Inr [key \<mapsto> val]"
  proof
    assume a: "CHR ''='' \<notin> set key \<and> CHR '';'' \<notin> set key \<and> CHR '';'' \<notin> set val"
    then have "CHR '';'' \<notin> set (key @ ''='' @ val)" by simp
    then have s: "Split (key @ ''='' @ val) '';'' = [key @ ''='' @ val]" by (rule Split_single)
    from a have "SplitN (key @ ''='' @ val) ''='' 2 = [key, val]"
      using key_prefix [of key val] by (simp add: SplitN_eq)
    with s show "parsePrinterDetails (key @ ''='' @ val) = Inr [key \<mapsto> val]"
      by (simp add: parsePrinterDetails_def)
  qed
qed

text \<open>
  Claim C10. When every property of a line holds an equals sign, the line parses, also
  when a key occurs more than once; and when the property at position \<open>i\<close> is \<open>k=v\<close>
  and no later property has the key \<open>k\<close> (none starts with \<open>k=\<close>), the record maps
  \<open>k\<close> to \<open>v\<close>: the last occurrence of a key decides.
\<close>

theorem parsePrinterDetails_last_duplicate_wins:
  assumes "\<forall>tok \<in> set (Split details '';''). CHR ''='' \<in> set tok"
    and "i < length (Split details '';'')"
    and "Split details '';'' ! i = k @ ''='' @ v"
    and "CHR ''='' \<notin> set k"
    and "\<forall>j. i < j \<and> j < length (Split details '';'') \<longrightarrow>
           \<not> prefix (k @ ''='') (Split details '';'' ! j)"
  shows "\<exists>m. parsePrinterDetails details = Inr m \<and> m k = Some v"
proof -
  let ?toks = "Split details '';''"
  from assms(1) have wf: "well_formed details" by (simp add: well_formed_def list_all_iff)
  from assms(3,4) have kv: "key_of (?toks ! i) = k" "value_of (?toks ! i) = v"
    using key_prefix [of k v] by simp_all
  have later: "\<forall>j. i < j \<and> j < length ?toks \<longrightarrow> key_of (?toks ! j) \<noteq> k"
  proof (intro allI impI)
    fix j assume j: "i < j \<and> j < length ?toks"
    then have "?toks ! j \<in> set ?toks" by simp
    with assms(1) have "CHR ''='' \<in> set (?toks ! j)" by blast
    moreover from assms(5) j have "\<not> prefix (k @ ''='') (?toks ! j)" by blast
    ultimately show "key_of (?toks ! j) \<noteq> k"
      using key_of_prefix_iff [OF assms(4), of "?toks ! j"] by blast
  qed
  from foldl_last_wins [OF assms(2) kv(1) later, of Map.empty] kv(2)
  have "foldl put_property Map.empty ?toks k = Some v" by simp
  with wf show ?thesis by (simp add: parsePrinterDetails_ok)
qed

section \<open>What follows the existence check\<close>

lemma main_service_sel:
  "ListPrinters (PrinterManager (main_service h)) = Windows_ListPrinters h"
  "PrinterExists (PrinterManager (main_service h)) = Windows_PrinterExists h"
  "PrintFile (DocumentPrinter (main_service h)) = External_PrintFile h"
  "OpenDrawer (DrawerOpener (main_service h)) = Windows_OpenDrawer h"
  by (simp_all add: main_service_def)

lemma Windows_ListPrinters_world: "snd (Windows_ListPrinters h w) = emit Spawn_Get_Printer w"
  by (simp add: Windows_ListPrinters_def Let_def split: prod.split option.split)

lemma Windows_PrinterExists_world: "snd (Windows_PrinterExists h name w) = emit Spawn_Get_Printer w"
  using Windows_ListPrinters_world [of h w]
  by (cases "Windows_ListPrinters h w") (auto simp add: Windows_PrinterExists_def split: sum.split)

lemma Windows_PrinterExists_pair:
  "Windows_PrinterExists h name w = (fst (Windows_PrinterExists h name w), emit Spawn_Get_Printer w)"
  using Windows_PrinterExists_world [of h name w] by (simp add: prod_eq_iff)

lemma effects_since_emit1: "effects_since w (emit e w) = [e]"
  by (simp add: effects_since_def emit_def)

lemma files_emit: "files (emit e w) = files w"
  by (simp add: emit_def)

lemma PrintPDFFromURL_absent:
  "PrinterExists (PrinterManager d) printerName w = (Inr False, w1) \<Longrightarrow>
   PrintPDFFromURL h d fileURL printerName w = (Some (UnknownPrinter printerName), w1)"
  by (simp add: PrintPDFFromURL_def)

lemma Service_OpenDrawer_absent:
  "PrinterExists (PrinterManager d) printerName w = (Inr False, w1) \<Longrightarrow>
   Service_OpenDrawer d printerName w = (Some (UnknownPrinter printerName), w1)"
  by (simp add: Service_OpenDrawer_def)

lemma PrintPDFFromURL_bad_url:
  "PrinterExists (PrinterManager d) printerName w = (Inr True, w1) \<Longrightarrow>
   (case ParseRequestURI h fileURL of
      Inl e \<Rightarrow> True
    | Inr u \<Rightarrow> Scheme u \<noteq> ''http'' \<and> Scheme u \<noteq> ''https'') \<Longrightarrow>
   PrintPDFFromURL h d fileURL printerName w =
     (Some (case ParseRequestURI h fileURL of
              Inl e \<Rightarrow> InvalidURL e
            | Inr u \<Rightarrow> UnsupportedScheme (Scheme u)), w1)"
  by (cases "ParseRequestURI h fileURL") (auto simp add: PrintPDFFromURL_def)

text \<open>
  What the service does once the existence check has answered: when
  \<^verbatim>\<open>PrinterExists\<close> answers false, \<^verbatim>\<open>PrintPDFFromURL\<close> returns the unknown-printer error
  and the world is the one the check left (the enumeration was launched, nothing else), so
  no HTTP fetch and no launch of the print tool is among the effects of the call.
\<close>

lemma unknown_printer_stops_PrintPDFFromURL:
  assumes "fst (Windows_PrinterExists h printerName w) = Inr False"
  shows "PrintPDFFromURL h (main_service h) fileURL printerName w =
           (Some (UnknownPrinter printerName), emit Spawn_Get_Printer w)
    \<and> filter is_fetch
        (effects_since w (snd (PrintPDFFromURL h (main_service h) fileURL printerName w))) = []
    \<and> filter is_print
        (effects_since w (snd (PrintPDFFromURL h (main_service h) fileURL printerName w))) = []"
proof -
  from assms Windows_PrinterExists_pair [of h printerName w]
  have "PrinterExists (PrinterManager (main_service h)) printerName w =
          (Inr False, emit Spawn_Get_Printer w)"
    by (simp add: main_service_sel)
  from PrintPDFFromURL_absent [OF this]
  have "PrintPDFFromURL h (main_service h) fileURL printerName w =
          (Some (UnknownPrinter printerName), emit Spawn_Get_Printer w)" .
  then show ?thesis by (simp add: effects_since_emit1)
qed

text \<open>
  Likewise \<^verbatim>\<open>OpenDrawer\<close> of the service: when \<^verbatim>\<open>PrinterExists\<close> answers false it returns
  the unknown-printer error and the drawer command is not launched.
\<close>

lemma unknown_printer_stops_OpenDrawer:
  assumes "fst (Windows_PrinterExists h printerName w) = Inr False"
  shows "Service_OpenDrawer (main_service h) printerName w =
           (Some (UnknownPrinter printerName), emit Spawn_Get_Printer w)
    \<and> filter is_drawer
        (effects_since w (snd (Service_OpenDrawer (main_service h) printerName w))) = []"
proof -
  from assms Windows_PrinterExists_pair [of h printerName w]
  have "PrinterExists (PrinterManager (main_service h)) printerName w =
          (Inr False, emit Spawn_Get_Printer w)"
    by (simp add: main_service_sel)
  from Service_OpenDrawer_absent [OF this]
  have "Service_OpenDrawer (main_service h) printerName w =
          (Some (UnknownPrinter printerName), emit Spawn_Get_Printer w)" .
  then show ?thesis by (simp add: effects_since_emit1)
qed

text \<open>
  Claim C5. For an existing printer and a URL that \<^verbatim>\<open>url.ParseRequestURI\<close> rejects, or
  whose scheme is neither http nor https, \<^verbatim>\<open>PrintPDFFromURL\<close> returns the invalid-URL
  error or the unsupported-scheme error, no HTTP fetch is among its effects and no file
  is created.
\<close>

theorem bad_url_is_never_fetched:
  assumes "fst (Windows_PrinterExists h printerName w) = Inr True"
    and "case ParseRequestURI h fileURL of
           Inl e \<Rightarrow> True
         | Inr u \<Rightarrow> Scheme u \<noteq> ''http'' \<and> Scheme u \<noteq> ''https''"
  shows "PrintPDFFromURL h (main_service h) fileURL printerName w =
           (Some (case ParseRequestURI h fileURL of
                    Inl e \<Rightarrow> InvalidURL e
                  | Inr u \<Rightarrow> UnsupportedScheme (Scheme u)), emit Spawn_Get_Printer w)
    \<and> filter is_fetch
        (effects_since w (snd (PrintPDFFromURL h (main_service h) fileURL printerName w))) = []
    \<and> files (snd (PrintPDFFromURL h (main_service h) fileURL printerName w)) = files w"
proof -
  from assms(1) Windows_PrinterExists_pair [of h printerName w]
  have "PrinterExists (PrinterManager (main_service h)) printerName w =
          (Inr True, emit Spawn_Get_Printer w)"
    by (simp add: main_service_sel)
  from PrintPDFFromURL_bad_url [OF this assms(2)]
  show ?thesis by (simp add: effects_since_emit1 files_emit)
qed

section \<open>Listing the printers\<close>

lemma GetPrinters_loop_eq:
  "GetPrinters_loop lines printers w =
     (printers @ map (\<lambda>l. projr (parsePrinterDetails l)) (filter well_formed lines),
      w\<lparr>trace := trace w @ map parse_log (filter (\<lambda>l. \<not> well_formed l) lines)\<rparr>)"
proof (induction lines arbitrary: printers w)
  case Nil
  show ?case by simp
next
  case (Cons l lines)
  show ?case
  proof (cases "well_formed l")
    case True
    then show ?thesis by (simp add: Cons.IH parsePrinterDetails_ok)
  next
    case False
    from parsePrinterDetails_bad [OF False] obtain tok
      where "parsePrinterDetails l = Inl (InvalidProperty tok)" by blast
    with False show ?thesis by (simp add: Cons.IH parse_log_def emit_def)
  qed
qed

lemma parsed_lines:
  "map Inr (map (\<lambda>l. projr (parsePrinterDetails l)) (filter well_formed lines)) =
   map parsePrinterDetails (filter well_formed lines)"
  by (simp add: parsePrinterDetails_ok)

text \<open>
  Claim C6. When the enumeration succeeds and gives the non-blank lines \<open>lines\<close>, of
  which \<open>N\<close> are well-formed and \<open>M\<close> are not, \<^verbatim>\<open>GetPrinters\<close> succeeds; it returns
  \<open>N\<close> records, the parse results of the well-formed lines in their order, and besides
  the enumeration launch its effects are \<open>M\<close> log entries, one for each malformed line in
  order (written by \<^verbatim>\<open>Logger.Errorf\<close>, so at level ERROR).
\<close>

theorem GetPrinters_skips_malformed_lines:
  assumes "fst (Windows_ListPrinters h w) = Inr lines"
  shows "\<exists>records logs.
           GetPrinters (main_service h) w =
             (Inr records, w\<lparr>trace := trace w @ Spawn_Get_Printer # logs\<rparr>)
         \<and> map Inr records = map parsePrinterDetails (filter well_formed lines)
         \<and> length records = length (filter well_formed lines)
         \<and> logs = map parse_log (filter (\<lambda>l. \<not> well_formed l) lines)
         \<and> length logs = length (filter (\<lambda>l. \<not> well_formed l) lines)"
proof -
  from assms Windows_ListPrinters_world [of h w]
  have "Windows_ListPrinters h w = (Inr lines, emit Spawn_Get_Printer w)"
    by (simp add: prod_eq_iff)
  then have "GetPrinters (main_service h) w =
      (Inr (map (\<lambda>l. projr (parsePrinterDetails l)) (filter well_formed lines)),
       w\<lparr>trace := trace w @ Spawn_Get_Printer # map parse_log (filter (\<lambda>l. \<not> well_formed l) lines)\<rparr>)"
    by (simp add: GetPrinters_def main_service_sel GetPrinters_loop_eq emit_def)
  with parsed_lines [of lines] show ?thesis
    by (intro exI conjI) (assumption | simp)+
qed

section \<open>Cleaning up the temporary file\<close>

lemma os_Remove_irrelevant:
  "Windows_PrinterExists (h\<lparr>os_Remove := r\<rparr>) = Windows_PrinterExists h"
  "Windows_ListPrinters (h\<lparr>os_Remove := r\<rparr>) = Windows_ListPrinters h"
  "External_PrintFile (h\<lparr>os_Remove := r\<rparr>) = External_PrintFile h"
  "Windows_OpenDrawer (h\<lparr>os_Remove := r\<rparr>) = Windows_OpenDrawer h"
  "downloadFile (h\<lparr>os_Remove := r\<rparr>) = downloadFile h"
  by (auto simp add: fun_eq_iff Windows_PrinterExists_def Windows_ListPrinters_def
      External_PrintFile_def Windows_OpenDrawer_def downloadFile_def Let_def
      split: prod.splits option.splits sum.splits)

lemma main_service_os_Remove: "main_service (h\<lparr>os_Remove := r\<rparr>) = main_service h"
  by (simp add: main_service_def os_Remove_irrelevant)

lemma PrintPDFFromURL_result_os_Remove:
  "fst (PrintPDFFromURL (h\<lparr>os_Remove := r\<rparr>) d fileURL printerName w) =
   fst (PrintPDFFromURL h d fileURL printerName w)"
  by (simp add: PrintPDFFromURL_def os_Remove_irrelevant Let_def
      split: prod.split sum.split option.split)

lemma downloadFile_effects:
  "\<exists>es. trace (snd (downloadFile h u w)) = trace w @ es \<and> (\<forall>f. Remove_File f \<notin> set es)"
  by (simp add: downloadFile_def Let_def emit_def split: sum.split option.split)

lemma External_PrintFile_effects:
  "\<exists>es. trace (snd (External_PrintFile h f p w)) = trace w @ es \<and> (\<forall>f. Remove_File f \<notin> set es)"
  by (simp add: External_PrintFile_def Let_def emit_def split: option.split)

lemma remove_temp_trace:
  "trace (remove_temp h f w) =
     trace w @ Remove_File f #
       (case os_Remove h f of
          Some e \<Rightarrow> [Log ERROR ''Error al eliminar archivo temporal: %v'' [ArgE e]]
        | None \<Rightarrow> [])"
  by (simp add: remove_temp_def Let_def emit_def split: option.split)

lemma removal_failure_logged:
  assumes "Remove_File f \<in> set (effects_since w (snd (PrintPDFFromURL h (main_service h) u p w)))"
    and "os_Remove h f = Some e"
  shows "Log ERROR ''Error al eliminar archivo temporal: %v'' [ArgE e]
           \<in> set (effects_since w (snd (PrintPDFFromURL h (main_service h) u p w)))"
proof -
  let ?w1 = "emit Spawn_Get_Printer w"
  let ?R = "PrintPDFFromURL h (main_service h) u p w"
  have pe: "PrinterExists (PrinterManager (main_service h)) p w =
      (fst (Windows_PrinterExists h p w), ?w1)"
    using Windows_PrinterExists_pair [of h p w] by (simp add: main_service_sel)
  show ?thesis
  proof (cases "\<exists>u'. fst (Windows_PrinterExists h p w) = Inr True \<and> ParseRequestURI h u = Inr u'
      \<and> (Scheme u' = ''http'' \<or> Scheme u' = ''https'') \<and> (\<exists>f'. fst (downloadFile h u ?w1) = Inr f')")
    case False
    obtain es where es: "trace (snd (downloadFile h u ?w1)) = trace ?w1 @ es"
      "\<forall>f. Remove_File f \<notin> set es" using downloadFile_effects by blast
    from False pe es have "Remove_File f \<notin> set (effects_since w (snd ?R))"
      by (cases "downloadFile h u ?w1")
         (auto simp add: PrintPDFFromURL_def effects_since_def emit_def split: sum.splits)
    with assms(1) show ?thesis by simp
  next
    case True
    then obtain u' f' where t: "fst (Windows_PrinterExists h p w) = Inr True"
      "ParseRequestURI h u = Inr u'" "Scheme u' = ''http'' \<or> Scheme u' = ''https''"
      "fst (downloadFile h u ?w1) = Inr f'" by blast
    obtain w2 where dl: "downloadFile h u ?w1 = (Inr f', w2)"
      using t(4) by (cases "downloadFile h u ?w1") simp
    let ?w3 = "emit (Log INFO ''Archivo descargado: %s'' [ArgS f']) w2"
    obtain r4 w4 where pf: "External_PrintFile h f' p ?w3 = (r4, w4)"
      by (cases "External_PrintFile h f' p ?w3")
    obtain es where es: "trace w2 = trace ?w1 @ es" "\<forall>f. Remove_File f \<notin> set es"
      using downloadFile_effects [of h u ?w1] dl by auto
    obtain es' where es': "trace w4 = trace ?w3 @ es'" "\<forall>f. Remove_File f \<notin> set es'"
      using External_PrintFile_effects [of h f' p ?w3] pf by auto
    have R: "snd ?R = remove_temp h f' w4"
      using pe t(1,2,3) dl pf
      by (cases r4) (auto simp add: PrintPDFFromURL_def main_service_sel Let_def)
    have tr: "effects_since w (snd ?R) =
        Spawn_Get_Printer # es @ Log INFO ''Archivo descargado: %s'' [ArgS f'] # es' @
        Remove_File f' # (case os_Remove h f' of
          Some e \<Rightarrow> [Log ERROR ''Error al eliminar archivo temporal: %v'' [ArgE e]]
        | None \<Rightarrow> [])"
      by (simp add: R remove_temp_trace es es' effects_since_def emit_def)
    with assms(1) es(2) es'(2) have "f = f'" by (auto split: option.splits)
    with assms(2) tr show ?thesis by simp
  qed
qed

text \<open>
  Claim C9. The value \<^verbatim>\<open>PrintPDFFromURL\<close> returns does not depend on what \<^verbatim>\<open>os.Remove\<close>
  answers: replacing the behaviour of \<^verbatim>\<open>os.Remove\<close> by any other leaves the returned
  value the same. And whenever the call has tried to remove a file and the removal
  failed with an error, the log entry of that error is among the effects of the call.
\<close>

theorem cleanup_failure_is_logged_not_returned:
  "fst (PrintPDFFromURL (h\<lparr>os_Remove := r\<rparr>) (main_service (h\<lparr>os_Remove := r\<rparr>)) fileURL printerName w) =
   fst (PrintPDFFromURL h (main_service h) fileURL printerName w)
   \<and> (\<forall>filePath e.
         Remove_File filePath
           \<in> set (effects_since w (snd (PrintPDFFromURL h (main_service h) fileURL printerName w)))
         \<and> os_Remove h filePath = Some e \<longrightarrow>
         Log ERROR ''Error al eliminar archivo temporal: %v'' [ArgE e]
           \<in> set (effects_since w (snd (PrintPDFFromURL h (main_service h) fileURL printerName w))))"
proof (intro conjI allI impI)
  show "fst (PrintPDFFromURL (h\<lparr>os_Remove := r\<rparr>) (main_service (h\<lparr>os_Remove := r\<rparr>)) fileURL printerName w) =
        fst (PrintPDFFromURL h (main_service h) fileURL printerName w)"
    by (simp add: main_service_os_Remove PrintPDFFromURL_result_os_Remove)
next
  fix filePath e
  assume "Remove_File filePath
      \<in> set (effects_since w (snd (PrintPDFFromURL h (main_service h) fileURL printerName w)))
    \<and> os_Remove h filePath = Some e"
  then show "Log ERROR ''Error al eliminar archivo temporal: %v'' [ArgE e]
      \<in> set (effects_since w (snd (PrintPDFFromURL h (main_service h) fileURL printerName w)))"
    using removal_failure_logged by blast
qed

section \<open>Validation and process launches\<close>

lemma PrintHandler_empty_field:
  assumes "Method r = ''POST''" and "Body r = Inr req" and "URL req = [] \<or> Printer req = []"
  shows "PrintHandler h d r w =
     ((400, Error ''URL o impresora no especificados'' None),
      emit (Log WARN ''URL o impresora no especificados'' [])
        (emit (Log INFO ''Received request: /print'' []) w))"
  using assms by (auto simp add: PrintHandler_def Let_def)

lemma validation_error_world:
  assumes "fst (PrintPDFFromURL h (main_service h) u p w) = Some e" and "is_validation_error e"
  shows "snd (PrintPDFFromURL h (main_service h) u p w) = emit Spawn_Get_Printer w"
proof -
  let ?w1 = "emit Spawn_Get_Printer w"
  obtain er where pe: "PrinterExists (PrinterManager (main_service h)) p w = (er, ?w1)"
    using Windows_PrinterExists_pair [of h p w] by (simp add: main_service_sel)
  obtain dr w2 where dl: "downloadFile h u ?w1 = (dr, w2)" by (cases "downloadFile h u ?w1")
  show ?thesis
  proof (cases dr)
    case (Inl x)
    with assms pe dl show ?thesis
      by (auto simp add: PrintPDFFromURL_def split: sum.splits if_splits)
  next
    case (Inr f)
    obtain r4 w4 where pf: "PrintFile (DocumentPrinter (main_service h)) f p
        (emit (Log INFO ''Archivo descargado: %s'' [ArgS f]) w2) = (r4, w4)"
      by (cases "PrintFile (DocumentPrinter (main_service h)) f p
        (emit (Log INFO ''Archivo descargado: %s'' [ArgS f]) w2)")
    with Inr assms pe dl show ?thesis
      by (cases r4) (auto simp add: PrintPDFFromURL_def Let_def split: sum.splits if_splits)
  qed
qed

text \<open>
  Claim C4, as amended. An empty URL or printer field is answered by the handler with
  status 400 before any external process is launched and before any fetch. The
  validation errors of \<^verbatim>\<open>PrintPDFFromURL\<close> (unknown printer, invalid URL, unsupported
  scheme) are returned after exactly one effect, the launch of the PowerShell enumeration
  that the existence check runs: nothing is fetched, no file is created and the print tool
  is not launched.
\<close>

theorem validation_precedes_fetch_and_print:
  "(Method r = ''POST'' \<and> Body r = Inr req \<and> (URL req = [] \<or> Printer req = []) \<longrightarrow>
      fst (PrintHandler h (main_service h) r w) = (400, Error ''URL o impresora no especificados'' None)
      \<and> filter is_spawn (effects_since w (snd (PrintHandler h (main_service h) r w))) = []
      \<and> filter is_fetch (effects_since w (snd (PrintHandler h (main_service h) r w))) = [])
   \<and> (fst (PrintPDFFromURL h (main_service h) fileURL printerName w) = Some e \<and> is_validation_error e \<longrightarrow>
      effects_since w (snd (PrintPDFFromURL h (main_service h) fileURL printerName w)) = [Spawn_Get_Printer]
      \<and> files (snd (PrintPDFFromURL h (main_service h) fileURL printerName w)) = files w)"
proof (intro conjI impI)
  assume a: "Method r = ''POST'' \<and> Body r = Inr req \<and> (URL req = [] \<or> Printer req = [])"
  then have eq: "PrintHandler h (main_service h) r w =
     ((400, Error ''URL o impresora no especificados'' None),
      emit (Log WARN ''URL o impresora no especificados'' [])
        (emit (Log INFO ''Received request: /print'' []) w))"
    using PrintHandler_empty_field [of r req h "main_service h" w] by blast
  show "fst (PrintHandler h (main_service h) r w) = (400, Error ''URL o impresora no especificados'' None)"
    by (simp add: eq)
  show "filter is_spawn (effects_since w (snd (PrintHandler h (main_service h) r w))) = []"
    by (simp add: eq effects_since_def emit_def)
  show "filter is_fetch (effects_since w (snd (PrintHandler h (main_service h) r w))) = []"
    by (simp add: eq effects_since_def emit_def)
next
  assume "fst (PrintPDFFromURL h (main_service h) fileURL printerName w) = Some e \<and> is_validation_error e"
  then have eq: "snd (PrintPDFFromURL h (main_service h) fileURL printerName w) = emit Spawn_Get_Printer w"
    using validation_error_world by blast
  show "effects_since w (snd (PrintPDFFromURL h (main_service h) fileURL printerName w)) = [Spawn_Get_Printer]"
    by (simp add: eq effects_since_emit1)
  show "files (snd (PrintPDFFromURL h (main_service h) fileURL printerName w)) = files w"
    by (simp add: eq files_emit)
qed

text \<open>
  The claim as stated, with zero process launches for every validation error, fails: a
  request with an unsupported scheme, and one with an unknown printer, are both refused
  after the enumeration process has been launched.
\<close>

theorem validation_error_after_one_launch:
  "fst (PrintHandler example_host (main_service example_host) bad_scheme_request empty_world) =
     (500, Error ''Error al imprimir el archivo'' (Some (UnsupportedScheme ''file'')))
   \<and> filter is_spawn
       (trace (snd (PrintHandler example_host (main_service example_host) bad_scheme_request empty_world))) =
     [Spawn_Get_Printer]
   \<and> fst (PrintHandler example_host (main_service example_host) unknown_printer_request empty_world) =
     (500, Error ''Error al imprimir el archivo'' (Some (UnknownPrinter ''Ghost'')))
   \<and> filter is_spawn
       (trace (snd (PrintHandler example_host (main_service example_host) unknown_printer_request empty_world))) =
     [Spawn_Get_Printer]"
  by code_simp

section \<open>Where the code leaves the specification\<close>

text \<open>
  What the search of \<^verbatim>\<open>PrinterExists\<close> does get right: a line that starts with the
  name field of the printer asked for, followed by another field, is found.
\<close>

lemma PrinterExists_finds_leading_name:
  assumes "fst (Windows_ListPrinters h w) = Inr lines"
    and "''Name='' @ name @ '';'' @ rest \<in> set lines"
  shows "fst (Windows_PrinterExists h name w) = Inr True"
proof -
  have "sublist (''Name='' @ name @ '';'') ([] @ (''Name='' @ name @ '';'') @ rest)"
    unfolding sublist_def by blast
  then have "Contains (''Name='' @ name @ '';'' @ rest) (''Name='' @ name @ '';'')"
    by (simp add: Contains_sublist)
  with assms(2) have "list_ex (\<lambda>p. Contains p (''Name='' @ name @ '';'')) lines"
    unfolding list_ex_iff by blast
  with assms(1) show ?thesis
    by (cases "Windows_ListPrinters h w") (simp add: Windows_PrinterExists_def)
qed

text \<open>
  Claim C1. \<^verbatim>\<open>PrinterExists\<close> searches each line for the text \<open>Name=\<close>, the name and a
  semicolon anywhere in the line, so the tail of another field matches as well. On the
  concrete host the only printers are \<open>HP2\<close> and \<open>Ticket\<close> (the records \<^verbatim>\<open>GetPrinters\<close>
  returns have these names, and the line skipped as malformed is named \<open>Caja;1\<close>), the driver
  of \<open>HP2\<close> is called \<open>HP\<close>, and \<^verbatim>\<open>PrinterExists("HP")\<close> is true because the line holds
  \<open>DriverName=HP;\<close>.
\<close>

theorem PrinterExists_matches_driver_name:
  "fst (Windows_ListPrinters example_host empty_world) =
     Inr [''Name=HP2;DriverName=HP;PortName=USB001;PrinterStatus=Normal;Location='',
          ''Name=Caja;1;DriverName=POS;PortName=COM1;PrinterStatus=Normal;Location='',
          ''Name=Ticket;DriverName=POS;PortName=COM2;PrinterStatus=Normal;Location=Caja=2'']
   \<and> fst (Windows_PrinterExists example_host ''HP'' empty_world) = Inr True
   \<and> (case fst (GetPrinters (main_service example_host) empty_world) of
         Inl e \<Rightarrow> False
       | Inr records \<Rightarrow> map (\<lambda>record. record ''Name'') records = [Some ''HP2'', Some ''Ticket''])"
  by code_simp

text \<open>
  Claim C3. The answer of \<^verbatim>\<open>PrinterExists\<close> is what \<^verbatim>\<open>PrintPDFFromURL\<close> relies on, so
  the false match reaches it: on the concrete host no printer is named \<open>HP\<close> (the records
  are named \<open>HP2\<close> and \<open>Ticket\<close>), yet the request to print on \<open>HP\<close> passes the check,
  the document is fetched, and the print tool is launched for \<open>HP\<close>; the call returns no
  error.
\<close>

theorem absent_printer_is_fetched_and_printed:
  "(case fst (GetPrinters (main_service example_host) empty_world) of
      Inl e \<Rightarrow> False
    | Inr records \<Rightarrow> map (\<lambda>record. record ''Name'') records = [Some ''HP2'', Some ''Ticket''])
   \<and> PrintPDFFromURL example_host (main_service example_host) ''http://x/doc.pdf'' ''HP'' empty_world =
       (None,
        \<lparr>files = {},
         trace =
           [Spawn_Get_Printer, Http_Get ''http://x/doc.pdf'', Create_Temp ''/tmp/123.pdf'',
            Copy_Body ''/tmp/123.pdf'', Log INFO ''Archivo descargado: %s'' [ArgS ''/tmp/123.pdf''],
            Stdout ''Imprimiendo archivo %s en impresora %s'' [ArgS ''/tmp/123.pdf'', ArgS ''HP''],
            Spawn_PDFPrinter ''/tmp/123.pdf'' ''HP'', Remove_File ''/tmp/123.pdf'']\<rparr>)"
  by code_simp

text \<open>
  Claim C7. In the same way \<^verbatim>\<open>OpenDrawer\<close> of the service passes the check for the
  absent printer \<open>HP\<close> and launches the drawer command for it, returning no error.
\<close>

theorem absent_printer_drawer_is_opened:
  "(case fst (GetPrinters (main_service example_host) empty_world) of
      Inl e \<Rightarrow> False
    | Inr records \<Rightarrow> map (\<lambda>record. record ''Name'') records = [Some ''HP2'', Some ''Ticket''])
   \<and> Service_OpenDrawer (main_service example_host) ''HP'' empty_world =
       (None, \<lparr>files = {}, trace = [Spawn_Get_Printer, Spawn_Drawer ''HP'']\<rparr>)"
  by code_simp

text \<open>
  After a successful download both outcomes of the print step run the deferred removal,
  and a removal that succeeds takes the file away. After a failed copy the file that
  \<^verbatim>\<open>os.CreateTemp\<close> made is still there when the call returns.
\<close>

lemma PrintPDFFromURL_after_download:
  assumes "fst (Windows_PrinterExists h p w) = Inr True"
    and "ParseRequestURI h u = Inr pu"
    and "Scheme pu = ''http'' \<or> Scheme pu = ''https''"
    and "downloadFile h u (emit Spawn_Get_Printer w) = (Inr f, w2)"
    and "External_PrintFile h f p (emit (Log INFO ''Archivo descargado: %s'' [ArgS f]) w2) = (r4, w4)"
  shows "PrintPDFFromURL h (main_service h) u p w = (map_option PrintError r4, remove_temp h f w4)"
proof -
  obtain er where pe: "PrinterExists (PrinterManager (main_service h)) p w =
      (er, emit Spawn_Get_Printer w)" and er: "er = Inr True"
    using Windows_PrinterExists_pair [of h p w] assms(1) by (simp add: main_service_sel)
  with assms(2-5) show ?thesis
    by (cases r4) (auto simp add: PrintPDFFromURL_def main_service_sel Let_def)
qed

lemma temp_file_removed_after_dispatch:
  assumes "fst (Windows_PrinterExists h p w) = Inr True"
    and "ParseRequestURI h u = Inr pu"
    and "Scheme pu = ''http'' \<or> Scheme pu = ''https''"
    and "fst (downloadFile h u (emit Spawn_Get_Printer w)) = Inr f"
    and "os_Remove h f = None"
  shows "f \<notin> files (snd (PrintPDFFromURL h (main_service h) u p w))"
proof -
  obtain w2 where dl: "downloadFile h u (emit Spawn_Get_Printer w) = (Inr f, w2)"
    using assms(4) by (cases "downloadFile h u (emit Spawn_Get_Printer w)") simp
  obtain r4 w4 where pf:
    "External_PrintFile h f p (emit (Log INFO ''Archivo descargado: %s'' [ArgS f]) w2) = (r4, w4)"
    by (cases "External_PrintFile h f p (emit (Log INFO ''Archivo descargado: %s'' [ArgS f]) w2)")
  from PrintPDFFromURL_after_download [OF assms(1-3) dl pf] assms(5)
  show ?thesis by (simp add: remove_temp_def Let_def emit_def)
qed

lemma temp_file_left_after_copy_error:
  assumes "fst (Windows_PrinterExists h p w) = Inr True"
    and "ParseRequestURI h u = Inr pu"
    and "Scheme pu = ''http'' \<or> Scheme pu = ''https''"
    and "http_Get h u = Inr resp" and "StatusCode resp = 200"
    and "os_CreateTemp h = Inr f" and "io_Copy h f = Some e"
  shows "fst (PrintPDFFromURL h (main_service h) u p w) = Some (DownloadError e)
    \<and> f \<in> files (snd (PrintPDFFromURL h (main_service h) u p w))"
proof -
  obtain er where pe: "PrinterExists (PrinterManager (main_service h)) p w =
      (er, emit Spawn_Get_Printer w)" and er: "er = Inr True"
    using Windows_PrinterExists_pair [of h p w] assms(1) by (simp add: main_service_sel)
  with assms(2-7) show ?thesis
    by (auto simp add: PrintPDFFromURL_def downloadFile_def Let_def emit_def)
qed

text \<open>
  Claim C2. When the body copy fails after \<^verbatim>\<open>os.CreateTemp\<close> has created the file,
  \<^verbatim>\<open>downloadFile\<close> returns the error and \<^verbatim>\<open>PrintPDFFromURL\<close> returns before its deferred
  removal is registered: the call ends with the download error, no removal among its
  effects, and the temporary file still there.
\<close>

theorem temp_file_left_when_copy_fails:
  "fst (PrintPDFFromURL copy_fails_host (main_service copy_fails_host)
          ''http://x/doc.pdf'' ''Ticket'' empty_world) =
     Some (DownloadError (Cause ''unexpected EOF''))
   \<and> files (snd (PrintPDFFromURL copy_fails_host (main_service copy_fails_host)
          ''http://x/doc.pdf'' ''Ticket'' empty_world)) = {''/tmp/123.pdf''}
   \<and> trace (snd (PrintPDFFromURL copy_fails_host (main_service copy_fails_host)
          ''http://x/doc.pdf'' ''Ticket'' empty_world)) =
       [Spawn_Get_Printer, Http_Get ''http://x/doc.pdf'', Create_Temp ''/tmp/123.pdf'',
        Copy_Body ''/tmp/123.pdf'']"
  by code_simp

section \<open>Instances on the concrete host\<close>

theorem parsePrinterDetails_splits_witness:
  "Split ''Name=HP;Formula=a=b'' '';'' = [''Name=HP'', ''Formula=a=b'']
   \<and> CHR '';'' \<notin> set ''Formula=a=b''
   \<and> CHR ''='' \<notin> set ''Formula''
   \<and> SplitN ''Formula=a=b'' ''='' 2 = [''Formula'', ''a=b'']
   \<and> (\<exists>m. parsePrinterDetails ''Name=HP;Formula=a=b'' = Inr m
          \<and> m ''Formula'' = Some ''a=b'' \<and> m ''Name'' = Some ''HP'')
   \<and> parsePrinterDetails ''Formula=a=b'' = Inr [''Formula'' \<mapsto> ''a=b'']
   \<and> CHR ''='' \<notin> set ''Broken''
   \<and> SplitN ''Broken'' ''='' 2 = [''Broken'']
   \<and> ''Broken'' \<in> set (Split ''Name=HP;Formula=a=b;Broken'' '';'')
   \<and> (\<exists>bad. parsePrinterDetails ''Name=HP;Formula=a=b;Broken'' = Inl (InvalidProperty bad))"
proof -
  let ?d = "''Name=HP;Formula=a=b''"
  let ?e = "''Name=HP;Formula=a=b;Broken''"
  note t = parsePrinterDetails_splits_at_first_equals [of ?d "''Formula''" "''a=b''" "''Broken''"]
  note u = parsePrinterDetails_splits_at_first_equals [of ?e "''Formula''" "''a=b''" "''Broken''"]
  have toks: "Split ?d '';'' = [''Name=HP'', ''Formula=a=b'']" by code_simp
  have toks': "Split ?e '';'' = [''Name=HP'', ''Formula=a=b'', ''Broken'']" by code_simp
  have h1: "CHR ''='' \<notin> set ''Formula''" and h2: "CHR ''='' \<notin> set ''Broken''"
    and h3: "CHR '';'' \<notin> set ''Formula''" and h4: "CHR '';'' \<notin> set ''a=b''"
    and h5: "CHR ''='' \<notin> set ''Name''" by simp_all
  from t h1 have c1: "SplitN (''Formula'' @ ''='' @ ''a=b'') ''='' 2 = [''Formula'', ''a=b'']" by blast
  from t h2 have c2: "SplitN ''Broken'' ''='' 2 = [''Broken'']" by blast
  from t toks have c3: "CHR '';'' \<notin> set ''Formula=a=b''" by simp
  from t h1 h3 h4 have c4: "parsePrinterDetails (''Formula'' @ ''='' @ ''a=b'') = Inr [''Formula'' \<mapsto> ''a=b'']"
    by blast
  have "\<forall>tok \<in> set (Split ?d '';''). CHR ''='' \<in> set tok" by (simp add: toks)
  with t obtain m where m: "parsePrinterDetails ?d = Inr m" by blast
  have f: "Split ?d '';'' ! 1 = ''Formula'' @ ''='' @ ''a=b''"
    and n: "Split ?d '';'' ! 0 = ''Name'' @ ''='' @ ''HP''" by (simp_all add: toks)
  have lf: "\<forall>j. 1 < j \<and> j < length (Split ?d '';'') \<longrightarrow>
      \<not> prefix (''Formula'' @ ''='') (Split ?d '';'' ! j)" by (simp add: toks)
  have ln: "\<forall>j. 0 < j \<and> j < length (Split ?d '';'') \<longrightarrow>
      \<not> prefix (''Name'' @ ''='') (Split ?d '';'' ! j)"
  proof (intro allI impI)
    fix j :: nat assume "0 < j \<and> j < length (Split ?d '';'')"
    then have "j = 1" by (simp add: toks)
    then show "\<not> prefix (''Name'' @ ''='') (Split ?d '';'' ! j)" by (simp add: toks)
  qed
  have l1: "1 < length (Split ?d '';'')" and l0: "0 < length (Split ?d '';'')"
    by (simp_all add: toks)
  from t have store: "\<And>i k v. parsePrinterDetails ?d = Inr m \<Longrightarrow> i < length (Split ?d '';'') \<Longrightarrow>
      Split ?d '';'' ! i = k @ ''='' @ v \<Longrightarrow> CHR ''='' \<notin> set k \<Longrightarrow>
      (\<forall>j. i < j \<and> j < length (Split ?d '';'') \<longrightarrow> \<not> prefix (k @ ''='') (Split ?d '';'' ! j)) \<Longrightarrow>
      m k = Some v"
    by blast
  from store [OF m l1 f h1 lf] have mf: "m ''Formula'' = Some ''a=b''" .
  from store [OF m l0 n h5 ln] have mn: "m ''Name'' = Some ''HP''" .
  from m mf mn have c5: "\<exists>m. parsePrinterDetails ?d = Inr m
          \<and> m ''Formula'' = Some ''a=b'' \<and> m ''Name'' = Some ''HP''" by blast
  have "\<exists>tok \<in> set (Split ?e '';''). CHR ''='' \<notin> set tok" by (simp add: toks')
  with u have c6: "\<exists>bad. parsePrinterDetails ?e = Inl (InvalidProperty bad)" by blast
  have c7: "''Broken'' \<in> set (Split ?e '';'')" by (simp add: toks')
  from toks c1 c2 c3 c4 c5 c6 c7 h1 h2 show ?thesis by simp
qed

theorem parsePrinterDetails_last_duplicate_witness:
  "Split ''Name=HP;Port=A;Name=HP2;Status=Normal'' '';'' =
     [''Name=HP'', ''Port=A'', ''Name=HP2'', ''Status=Normal'']
   \<and> (\<exists>m. parsePrinterDetails ''Name=HP;Port=A;Name=HP2;Status=Normal'' = Inr m
          \<and> m ''Name'' = Some ''HP2'')"
proof -
  let ?d = "''Name=HP;Port=A;Name=HP2;Status=Normal''"
  have toks: "Split ?d '';'' = [''Name=HP'', ''Port=A'', ''Name=HP2'', ''Status=Normal'']"
    by code_simp
  have a1: "\<forall>tok \<in> set (Split ?d '';''). CHR ''='' \<in> set tok" by (simp add: toks)
  have a2: "2 < length (Split ?d '';'')" by (simp add: toks)
  have a3: "Split ?d '';'' ! 2 = ''Name'' @ ''='' @ ''HP2''" by (simp add: toks)
  have a4: "CHR ''='' \<notin> set ''Name''" by simp
  have a5: "\<forall>j. 2 < j \<and> j < length (Split ?d '';'') \<longrightarrow>
              \<not> prefix (''Name'' @ ''='') (Split ?d '';'' ! j)"
  proof (intro allI impI)
    fix j :: nat assume "2 < j \<and> j < length (Split ?d '';'')"
    then have "j = 3" by (simp add: toks)
    then show "\<not> prefix (''Name'' @ ''='') (Split ?d '';'' ! j)" by (simp add: toks)
  qed
  from parsePrinterDetails_last_duplicate_wins [OF a1 a2 a3 a4 a5] toks
  show ?thesis by simp
qed

theorem bad_url_witness:
  "fst (Windows_PrinterExists example_host ''Ticket'' empty_world) = Inr True
   \<and> ParseRequestURI example_host ''file:///etc/passwd'' = Inr \<lparr>Scheme = ''file''\<rparr>
   \<and> PrintPDFFromURL example_host (main_service example_host) ''file:///etc/passwd'' ''Ticket'' empty_world =
       (Some (UnsupportedScheme ''file''), emit Spawn_Get_Printer empty_world)
   \<and> ParseRequestURI example_host ''doc.pdf'' = Inl (Cause ''invalid URI for request'')
   \<and> PrintPDFFromURL example_host (main_service example_host) ''doc.pdf'' ''Ticket'' empty_world =
       (Some (InvalidURL (Cause ''invalid URI for request'')), emit Spawn_Get_Printer empty_world)"
proof -
  have h: "fst (Windows_PrinterExists example_host ''Ticket'' empty_world) = Inr True"
    by code_simp
  have p: "ParseRequestURI example_host ''file:///etc/passwd'' = Inr \<lparr>Scheme = ''file''\<rparr>"
    by (simp add: example_host_def example_ParseRequestURI_def)
  then have b: "case ParseRequestURI example_host ''file:///etc/passwd'' of
           Inl e \<Rightarrow> True
         | Inr u \<Rightarrow> Scheme u \<noteq> ''http'' \<and> Scheme u \<noteq> ''https''"
    by simp
  have p': "ParseRequestURI example_host ''doc.pdf'' = Inl (Cause ''invalid URI for request'')"
    by (simp add: example_host_def example_ParseRequestURI_def)
  then have b': "case ParseRequestURI example_host ''doc.pdf'' of
           Inl e \<Rightarrow> True
         | Inr u \<Rightarrow> Scheme u \<noteq> ''http'' \<and> Scheme u \<noteq> ''https''"
    by simp
  from bad_url_is_never_fetched [OF h b] bad_url_is_never_fetched [OF h b'] h p p'
  show ?thesis by simp
qed

theorem validation_witness:
  "Method empty_field_request = ''POST''
   \<and> Body empty_field_request = Inr \<lparr>URL = ''http://x/doc.pdf'', Printer = []\<rparr>
   \<and> fst (PrintHandler example_host (main_service example_host) empty_field_request empty_world) =
       (400, Error ''URL o impresora no especificados'' None)
   \<and> filter is_spawn (effects_since empty_world
        (snd (PrintHandler example_host (main_service example_host) empty_field_request empty_world))) = []
   \<and> fst (PrintPDFFromURL example_host (main_service example_host) ''http://x/doc.pdf'' ''Ghost'' empty_world) =
       Some (UnknownPrinter ''Ghost'')
   \<and> is_validation_error (UnknownPrinter ''Ghost'')
   \<and> effects_since empty_world
        (snd (PrintPDFFromURL example_host (main_service example_host) ''http://x/doc.pdf'' ''Ghost'' empty_world)) =
       [Spawn_Get_Printer]"
proof -
  note t = validation_precedes_fetch_and_print
    [of empty_field_request "\<lparr>URL = ''http://x/doc.pdf'', Printer = []\<rparr>" example_host empty_world
        "''http://x/doc.pdf''" "''Ghost''" "UnknownPrinter ''Ghost''"]
  have a: "Method empty_field_request = ''POST''"
    "Body empty_field_request = Inr \<lparr>URL = ''http://x/doc.pdf'', Printer = []\<rparr>"
    by (simp_all add: empty_field_request_def)
  have b: "fst (PrintPDFFromURL example_host (main_service example_host) ''http://x/doc.pdf'' ''Ghost'' empty_world) =
       Some (UnknownPrinter ''Ghost'')"
    by code_simp
  from t a b show ?thesis by simp
qed

theorem GetPrinters_witness:
  "fst (Windows_ListPrinters example_host empty_world) =
     Inr [''Name=HP2;DriverName=HP;PortName=USB001;PrinterStatus=Normal;Location='',
          ''Name=Caja;1;DriverName=POS;PortName=COM1;PrinterStatus=Normal;Location='',
          ''Name=Ticket;DriverName=POS;PortName=COM2;PrinterStatus=Normal;Location=Caja=2'']
   \<and> (\<exists>records logs.
         GetPrinters (main_service example_host) empty_world =
           (Inr records, empty_world\<lparr>trace := trace empty_world @ Spawn_Get_Printer # logs\<rparr>)
         \<and> length records = 2 \<and> length logs = 1)"
proof -
  let ?lines = "[''Name=HP2;DriverName=HP;PortName=USB001;PrinterStatus=Normal;Location='',
          ''Name=Caja;1;DriverName=POS;PortName=COM1;PrinterStatus=Normal;Location='',
          ''Name=Ticket;DriverName=POS;PortName=COM2;PrinterStatus=Normal;Location=Caja=2'']"
  have h: "fst (Windows_ListPrinters example_host empty_world) = Inr ?lines" by code_simp
  have n: "length (filter well_formed ?lines) = 2" by code_simp
  have m: "length (filter (\<lambda>l. \<not> well_formed l) ?lines) = 1" by code_simp
  from GetPrinters_skips_malformed_lines [OF h] obtain records logs
    where g: "GetPrinters (main_service example_host) empty_world =
             (Inr records, empty_world\<lparr>trace := trace empty_world @ Spawn_Get_Printer # logs\<rparr>)"
      and lr: "length records = length (filter well_formed ?lines)"
      and ll: "length logs = length (filter (\<lambda>l. \<not> well_formed l) ?lines)"
    by blast
  from lr n have "length records = 2" by (simp only:)
  moreover from ll m have "length logs = 1" by (simp only:)
  ultimately have "\<exists>records logs.
         GetPrinters (main_service example_host) empty_world =
           (Inr records, empty_world\<lparr>trace := trace empty_world @ Spawn_Get_Printer # logs\<rparr>)
         \<and> length records = 2 \<and> length logs = 1"
    using g by blast
  with h show ?thesis by (simp only: simp_thms)
qed

theorem cleanup_witness:
  "Remove_File ''/tmp/123.pdf''
     \<in> set (effects_since empty_world
         (snd (PrintPDFFromURL (example_host\<lparr>os_Remove := (\<lambda>f. Some (Cause ''access denied''))\<rparr>)
                 (main_service (example_host\<lparr>os_Remove := (\<lambda>f. Some (Cause ''access denied''))\<rparr>))
                 ''http://x/doc.pdf'' ''Ticket'' empty_world)))
   \<and> os_Remove (example_host\<lparr>os_Remove := (\<lambda>f. Some (Cause ''access denied''))\<rparr>) ''/tmp/123.pdf'' =
       Some (Cause ''access denied'')
   \<and> Log ERROR ''Error al eliminar archivo temporal: %v'' [ArgE (Cause ''access denied'')]
     \<in> set (effects_since empty_world
         (snd (PrintPDFFromURL (example_host\<lparr>os_Remove := (\<lambda>f. Some (Cause ''access denied''))\<rparr>)
                 (main_service (example_host\<lparr>os_Remove := (\<lambda>f. Some (Cause ''access denied''))\<rparr>))
                 ''http://x/doc.pdf'' ''Ticket'' empty_world)))
   \<and> fst (PrintPDFFromURL (example_host\<lparr>os_Remove := (\<lambda>f. Some (Cause ''access denied''))\<rparr>)
                 (main_service (example_host\<lparr>os_Remove := (\<lambda>f. Some (Cause ''access denied''))\<rparr>))
                 ''http://x/doc.pdf'' ''Ticket'' empty_world) = None"
proof -
  let ?h = "example_host\<lparr>os_Remove := (\<lambda>f. Some (Cause ''access denied''))\<rparr>"
  note t = cleanup_failure_is_logged_not_returned
    [where h = ?h and r = "\<lambda>f. None" and fileURL = "''http://x/doc.pdf''"
       and printerName = "''Ticket''" and w = empty_world]
  have a: "Remove_File ''/tmp/123.pdf''
     \<in> set (effects_since empty_world
         (snd (PrintPDFFromURL ?h (main_service ?h) ''http://x/doc.pdf'' ''Ticket'' empty_world)))"
    by code_simp
  have b: "os_Remove ?h ''/tmp/123.pdf'' = Some (Cause ''access denied'')" by simp
  have c: "fst (PrintPDFFromURL ?h (main_service ?h) ''http://x/doc.pdf'' ''Ticket'' empty_world) = None"
    by code_simp
  from t a b have "Log ERROR ''Error al eliminar archivo temporal: %v'' [ArgE (Cause ''access denied'')]
     \<in> set (effects_since empty_world
         (snd (PrintPDFFromURL ?h (main_service ?h) ''http://x/doc.pdf'' ''Ticket'' empty_world)))"
    by blast
  with a b c show ?thesis by simp
qed

end
